theory Spec2Isabelle
  imports Main "HOL-Library.Char_ord" "HOL-Library.List_Lexorder"
begin

section \<open>Records and the object memory\<close>

text \<open>
  \<^verbatim>\<open>Registro\<close> objects are mutable and shared: the Table Manager puts one and the same
  object into the record file and into the index node, and \<^verbatim>\<open>zerar\<close> mutates it in place.
  The model therefore keeps the objects in an explicit memory (a list indexed by reference)
  and lets the record file and the index nodes hold references.

  Keys are Python strings compared with \<^verbatim>\<open><\<close>; here they are byte strings under the
  lexicographic order of the library (a proper prefix is smaller, the empty string is least).
  The birth date is a parsed \<^verbatim>\<open>datetime\<close>, or \<^verbatim>\<open>None\<close> after \<^verbatim>\<open>zerar\<close>; parsing is not modelled.

  A Python reference always names an object. Here a reference is an index into the memory,
  and the states considered keep every reference of the file and of the index within the
  memory (\<open>inv_gerenciador\<close>, \<open>inv_indice\<close> below); the statements over arbitrary memories
  and trees do not depend on it.
\<close>

type_synonym datetime = "nat \<times> nat \<times> nat"

type_synonym ref = nat

record Registro =
  cpf :: string
  nome :: string
  data_nascimento :: "datetime option"
  deletado :: bool

type_synonym memoria = "Registro list"

definition Registro_init :: "string \<Rightarrow> string \<Rightarrow> datetime \<Rightarrow> bool \<Rightarrow> Registro" where
  "Registro_init c n d del = \<lparr>cpf = c, nome = n, data_nascimento = Some d, deletado = del\<rparr>"

definition zerar :: "Registro \<Rightarrow> Registro" where
  "zerar r = r\<lparr>cpf := [], nome := [], data_nascimento := None, deletado := True\<rparr>"

text \<open>\<^verbatim>\<open>registro.zerar()\<close> on the object behind a reference.\<close>

definition zerar_obj :: "memoria \<Rightarrow> ref \<Rightarrow> memoria" where
  "zerar_obj m r = m[r := zerar (m ! r)]"

text \<open>The key read through a reference: \<^verbatim>\<open>no.registro.cpf\<close>.\<close>

definition chave :: "memoria \<Rightarrow> ref \<Rightarrow> string" where
  "chave m r = cpf (m ! r)"

text \<open>What the program prints.\<close>

datatype mensagem =
    Chave_ja_existe string
  | Registro_removido string
  | Registro_nao_encontrado string

section \<open>The binary search tree index\<close>

text \<open>
  A node is never \<^verbatim>\<open>None\<close>; its children and the root are a node or \<^verbatim>\<open>None\<close>.
  Nodes are owned by the tree alone, so in-place updates of a node are modelled by
  rebuilding the path to it.
\<close>

datatype No = No (registro: ref) (posicao: int) (esquerda: "No option") (direita: "No option")

fun abb_inserir_aux :: "memoria \<Rightarrow> No \<Rightarrow> ref \<Rightarrow> int \<Rightarrow> No \<times> mensagem list" where
  "abb_inserir_aux m (No r0 p0 e d) r p =
     (if chave m r < chave m r0 then
        (case e of
           None \<Rightarrow> (No r0 p0 (Some (No r p None None)) d, [])
         | Some e0 \<Rightarrow> (case abb_inserir_aux m e0 r p of (e1, out) \<Rightarrow> (No r0 p0 (Some e1) d, out)))
      else if chave m r0 < chave m r then
        (case d of
           None \<Rightarrow> (No r0 p0 e (Some (No r p None None)), [])
         | Some d0 \<Rightarrow> (case abb_inserir_aux m d0 r p of (d1, out) \<Rightarrow> (No r0 p0 e (Some d1), out)))
      else (No r0 p0 e d, [Chave_ja_existe (chave m r)]))"

definition abb_inserir :: "memoria \<Rightarrow> No option \<Rightarrow> ref \<Rightarrow> int \<Rightarrow> No option \<times> mensagem list" where
  "abb_inserir m raiz r p =
     (case raiz of
        None \<Rightarrow> (Some (No r p None None), [])
      | Some n \<Rightarrow> (case abb_inserir_aux m n r p of (n1, out) \<Rightarrow> (Some n1, out)))"

fun abb_buscar_aux :: "memoria \<Rightarrow> No option \<Rightarrow> string \<Rightarrow> No option" where
  "abb_buscar_aux m None k = None"
| "abb_buscar_aux m (Some (No r0 p0 e d)) k =
     (if k = chave m r0 then Some (No r0 p0 e d)
      else if k < chave m r0 then abb_buscar_aux m e k
      else abb_buscar_aux m d k)"

definition abb_buscar :: "memoria \<Rightarrow> No option \<Rightarrow> string \<Rightarrow> No option" where
  "abb_buscar m raiz k = abb_buscar_aux m raiz k"

fun abb_minimo :: "No \<Rightarrow> No" where
  "abb_minimo (No r0 p0 e d) = (case e of None \<Rightarrow> No r0 p0 e d | Some e0 \<Rightarrow> abb_minimo e0)"

fun abb_remover_aux :: "memoria \<Rightarrow> No option \<Rightarrow> string \<Rightarrow> No option" where
  "abb_remover_aux m None k = None"
| "abb_remover_aux m (Some (No r0 p0 e d)) k =
     (if k < chave m r0 then Some (No r0 p0 (abb_remover_aux m e k) d)
      else if chave m r0 < k then Some (No r0 p0 e (abb_remover_aux m d k))
      else
        (case e of
           None \<Rightarrow> d
         | Some e0 \<Rightarrow>
            (case d of
               None \<Rightarrow> e
             | Some d0 \<Rightarrow>
                (let sucessor = abb_minimo d0 in
                 Some (No (registro sucessor) (posicao sucessor) e
                         (abb_remover_aux m d (chave m (registro sucessor))))))))"

definition abb_remover :: "memoria \<Rightarrow> No option \<Rightarrow> string \<Rightarrow> No option" where
  "abb_remover m raiz k = abb_remover_aux m raiz k"

definition abb_destruir :: "No option \<Rightarrow> No option" where
  "abb_destruir raiz = None"

subsection \<open>Traversals\<close>

text \<open>The traversals return the record objects (references) in visiting order.\<close>

fun abb_pre_ordem_aux :: "No option \<Rightarrow> ref list \<Rightarrow> ref list" where
  "abb_pre_ordem_aux None res = res"
| "abb_pre_ordem_aux (Some (No r0 p0 e d)) res =
     abb_pre_ordem_aux d (abb_pre_ordem_aux e (res @ [r0]))"

definition abb_pre_ordem :: "No option \<Rightarrow> ref list" where
  "abb_pre_ordem raiz = abb_pre_ordem_aux raiz []"

fun abb_em_ordem_aux :: "No option \<Rightarrow> ref list \<Rightarrow> ref list" where
  "abb_em_ordem_aux None res = res"
| "abb_em_ordem_aux (Some (No r0 p0 e d)) res =
     abb_em_ordem_aux d (abb_em_ordem_aux e res @ [r0])"

definition abb_em_ordem :: "No option \<Rightarrow> ref list" where
  "abb_em_ordem raiz = abb_em_ordem_aux raiz []"

fun abb_pos_ordem_aux :: "No option \<Rightarrow> ref list \<Rightarrow> ref list" where
  "abb_pos_ordem_aux None res = res"
| "abb_pos_ordem_aux (Some (No r0 p0 e d)) res =
     abb_pos_ordem_aux d (abb_pos_ordem_aux e res) @ [r0]"

definition abb_pos_ordem :: "No option \<Rightarrow> ref list" where
  "abb_pos_ordem raiz = abb_pos_ordem_aux raiz []"

text \<open>
  \<^verbatim>\<open>percurso_largura\<close>: the loop over the queue \<^verbatim>\<open>fila\<close>; \<^verbatim>\<open>popleft\<close> takes the head, the
  children that are not \<^verbatim>\<open>None\<close> are appended at the end.
\<close>

definition filhos :: "No option \<Rightarrow> No option \<Rightarrow> No list" where
  "filhos e d = (case e of None \<Rightarrow> [] | Some e0 \<Rightarrow> [e0]) @ (case d of None \<Rightarrow> [] | Some d0 \<Rightarrow> [d0])"

function abb_percurso_largura_laco :: "No list \<Rightarrow> ref list \<Rightarrow> ref list" where
  "abb_percurso_largura_laco [] res = res"
| "abb_percurso_largura_laco (No r0 p0 e d # fila) res =
     abb_percurso_largura_laco (fila @ filhos e d) (res @ [r0])"
  by pat_completeness auto
termination
  by (relation "measure (\<lambda>(fila, res). sum_list (map size fila))")
     (auto simp: filhos_def split: option.splits)

definition abb_percurso_largura :: "No option \<Rightarrow> ref list" where
  "abb_percurso_largura raiz =
     (case raiz of None \<Rightarrow> [] | Some n \<Rightarrow> abb_percurso_largura_laco [n] [])"

section \<open>The record file\<close>

text \<open>\<^verbatim>\<open>ArquivoRegistros.registros\<close> is a list of references into the object memory.\<close>

definition arq_inserir :: "ref list \<Rightarrow> ref \<Rightarrow> ref list \<times> int" where
  "arq_inserir regs r = (regs @ [r], int (length (regs @ [r])) - 1)"

definition arq_buscar_por_posicao :: "ref list \<Rightarrow> int \<Rightarrow> ref option" where
  "arq_buscar_por_posicao regs p =
     (if 0 \<le> p \<and> p < int (length regs) then Some (regs ! nat p) else None)"

definition arq_deletar :: "memoria \<Rightarrow> ref list \<Rightarrow> int \<Rightarrow> memoria" where
  "arq_deletar m regs p =
     (if 0 \<le> p \<and> p < int (length regs) then zerar_obj m (regs ! nat p) else m)"

section \<open>The manager: record file plus index\<close>

record estado =
  objetos :: memoria
  arquivo :: "ref list"
  indice :: "No option"
  saida :: "mensagem list"

definition estado_inicial :: estado where
  "estado_inicial = \<lparr>objetos = [], arquivo = [], indice = None, saida = []\<rparr>"

text \<open>Constructing a \<^verbatim>\<open>Registro\<close> allocates a new object; its reference is the old size of the memory.\<close>

definition novo_registro :: "estado \<Rightarrow> Registro \<Rightarrow> estado" where
  "novo_registro s reg = s\<lparr>objetos := objetos s @ [reg]\<rparr>"

definition inserir_registro :: "estado \<Rightarrow> ref \<Rightarrow> estado" where
  "inserir_registro s r =
     (case arq_inserir (arquivo s) r of
        (regs, pos) \<Rightarrow>
          (case abb_inserir (objetos s) (indice s) r pos of
             (raiz, out) \<Rightarrow> s\<lparr>arquivo := regs, indice := raiz, saida := saida s @ out\<rparr>))"

definition remover_registro_por_cpf :: "estado \<Rightarrow> string \<Rightarrow> estado" where
  "remover_registro_por_cpf s k =
     (case abb_buscar (objetos s) (indice s) k of
        Some no \<Rightarrow>
          (let m1 = arq_deletar (objetos s) (arquivo s) (posicao no) in
           s\<lparr>objetos := m1,
             indice := abb_remover m1 (indice s) k,
             saida := saida s @ [Registro_removido k]\<rparr>)
      | None \<Rightarrow> s\<lparr>saida := saida s @ [Registro_nao_encontrado k]\<rparr>)"

definition buscar_registro_por_cpf :: "estado \<Rightarrow> string \<Rightarrow> ref option" where
  "buscar_registro_por_cpf s k =
     (case abb_buscar (objetos s) (indice s) k of
        Some no \<Rightarrow>
          (case arq_buscar_por_posicao (arquivo s) (posicao no) of
             Some r \<Rightarrow> if \<not> deletado (objetos s ! r) then Some r else None
           | None \<Rightarrow> None)
      | None \<Rightarrow> None)"

fun em_ordem_nos :: "ref list \<Rightarrow> No option \<Rightarrow> ref option list \<Rightarrow> ref option list" where
  "em_ordem_nos regs None res = res"
| "em_ordem_nos regs (Some (No r0 p0 e d)) res =
     em_ordem_nos regs d (em_ordem_nos regs e res @ [arq_buscar_por_posicao regs p0])"

definition criar_arquivo_ordenado :: "estado \<Rightarrow> ref option list" where
  "criar_arquivo_ordenado s = em_ordem_nos (arquivo s) (indice s) []"

section \<open>Operation sequences\<close>

text \<open>
  The calls a client can make, one constructor per public operation. An operation that
  takes a record takes a reference to an object that exists; a reference beyond the
  memory names no object, and such a call is skipped. The read operations return a value
  (given by the functions above) and leave the state as it is.
\<close>

datatype operacao =
    Novo_registro string string datetime bool
  | Arq_inserir ref
  | Arq_buscar_por_posicao int
  | Arq_deletar int
  | Abb_inserir ref int
  | Abb_buscar string
  | Abb_remover string
  | Inserir_registro ref
  | Remover_registro_por_cpf string
  | Buscar_registro_por_cpf string
  | Criar_arquivo_ordenado

fun passo :: "operacao \<Rightarrow> estado \<Rightarrow> estado" where
  "passo (Novo_registro c n d del) s = novo_registro s (Registro_init c n d del)"
| "passo (Arq_inserir r) s =
     (if r < length (objetos s) then s\<lparr>arquivo := fst (arq_inserir (arquivo s) r)\<rparr> else s)"
| "passo (Arq_buscar_por_posicao p) s = s"
| "passo (Arq_deletar p) s = s\<lparr>objetos := arq_deletar (objetos s) (arquivo s) p\<rparr>"
| "passo (Abb_inserir r p) s =
     (if r < length (objetos s) then
        (case abb_inserir (objetos s) (indice s) r p of
           (raiz, out) \<Rightarrow> s\<lparr>indice := raiz, saida := saida s @ out\<rparr>)
      else s)"
| "passo (Abb_buscar k) s = s"
| "passo (Abb_remover k) s = s\<lparr>indice := abb_remover (objetos s) (indice s) k\<rparr>"
| "passo (Inserir_registro r) s = (if r < length (objetos s) then inserir_registro s r else s)"
| "passo (Remover_registro_por_cpf k) s = remover_registro_por_cpf s k"
| "passo (Buscar_registro_por_cpf k) s = s"
| "passo Criar_arquivo_ordenado s = s"

definition executar :: "operacao list \<Rightarrow> estado \<Rightarrow> estado" where
  "executar ops s = fold passo ops s"

text \<open>The operations of the manager (\<^verbatim>\<open>SistemaGerenciadorBD\<close>) and the construction of records.\<close>

fun do_gerenciador :: "operacao \<Rightarrow> bool" where
  "do_gerenciador (Novo_registro c n d del) = True"
| "do_gerenciador (Inserir_registro r) = True"
| "do_gerenciador (Remover_registro_por_cpf k) = True"
| "do_gerenciador (Buscar_registro_por_cpf k) = True"
| "do_gerenciador Criar_arquivo_ordenado = True"
| "do_gerenciador _ = False"

text \<open>\<^verbatim>\<open>sgbd.inserir_registro(Registro(c, n, d))\<close>: construct a record and insert it.\<close>

definition inserir_novo :: "string \<Rightarrow> string \<Rightarrow> datetime \<Rightarrow> estado \<Rightarrow> estado" where
  "inserir_novo c n d s =
     inserir_registro (novo_registro s (Registro_init c n d False)) (length (objetos s))"

subsection \<open>Observations used in the statements\<close>

text \<open>The nodes of a tree, in order.\<close>

fun nos :: "No option \<Rightarrow> No list" where
  "nos None = []"
| "nos (Some (No r0 p0 e d)) = nos e @ [No r0 p0 e d] @ nos d"

definition contar_nos :: "No option \<Rightarrow> nat" where
  "contar_nos raiz = length (nos raiz)"

text \<open>The keys of a traversal, read from the records it returns.\<close>

definition chaves :: "memoria \<Rightarrow> ref list \<Rightarrow> string list" where
  "chaves m rs = map (chave m) rs"

text \<open>The record that \<^verbatim>\<open>zerar\<close> leaves behind.\<close>

definition registro_zerado :: Registro where
  "registro_zerado = \<lparr>cpf = [], nome = [], data_nascimento = None, deletado = True\<rparr>"

text \<open>The record in a slot of the file, when the position is in range.\<close>

definition registro_na_posicao :: "estado \<Rightarrow> int \<Rightarrow> Registro option" where
  "registro_na_posicao s p = map_option (\<lambda>r. objetos s ! r) (arq_buscar_por_posicao (arquivo s) p)"

text \<open>
  \<^verbatim>\<open>ArvoreBinariaBusca(registros_iter)\<close>: the constructor inserts the given pairs one by one
  into an empty tree.
\<close>

definition abb_init :: "memoria \<Rightarrow> (ref \<times> int) list \<Rightarrow> No option \<times> mensagem list" where
  "abb_init m pares =
     fold (\<lambda>(r, p) (raiz, out).
             case abb_inserir m raiz r p of (raiz1, out1) \<Rightarrow> (raiz1, out @ out1))
          pares (None, [])"

subsection \<open>Scenarios\<close>

definition data0 :: datetime where
  "data0 = (1, 1, 2000)"

text \<open>Keys A, B, C inserted in ascending order through the manager.\<close>

definition cenario_abc :: estado where
  "cenario_abc =
     inserir_novo ''C'' ''c'' data0
       (inserir_novo ''B'' ''b'' data0 (inserir_novo ''A'' ''a'' data0 estado_inicial))"

text \<open>Keys B, A, D, C as four records in memory, to be inserted into an empty index.\<close>

definition memoria_badc :: memoria where
  "memoria_badc =
     [Registro_init ''B'' ''b'' data0 False, Registro_init ''A'' ''a'' data0 False,
      Registro_init ''D'' ''d'' data0 False, Registro_init ''C'' ''c'' data0 False]"

definition indice_badc :: "No option" where
  "indice_badc = fst (abb_init memoria_badc [(0, 0), (1, 1), (2, 2), (3, 3)])"

text \<open>One record with key A.\<close>

definition cenario_a :: estado where
  "cenario_a = inserir_novo ''A'' ''a'' data0 estado_inicial"

text \<open>Key M, then key A (which goes to the left of M).\<close>

definition cenario_ma :: estado where
  "cenario_ma = inserir_novo ''A'' ''a'' data0 (inserir_novo ''M'' ''m'' data0 estado_inicial)"

text \<open>The same, then M deleted, then a second record with key A inserted.\<close>

definition cenario_ma_a :: estado where
  "cenario_ma_a =
     inserir_novo ''A'' ''outro'' data0 (remover_registro_por_cpf cenario_ma ''M'')"

text \<open>One record whose key is the empty string.\<close>

definition cenario_vazia :: estado where
  "cenario_vazia = inserir_novo [] ''x'' data0 estado_inicial"

subsection \<open>Predicates on states\<close>

text \<open>
  Slot \<open>p\<close> of the file holds an existing object, and that object is the record that
  \<^verbatim>\<open>zerar\<close> leaves behind: the slot has been tombstoned.
\<close>

definition posicao_zerada :: "estado \<Rightarrow> nat \<Rightarrow> bool" where
  "posicao_zerada s p =
     (p < length (arquivo s) \<and> arquivo s ! p < length (objetos s)
      \<and> objetos s ! (arquivo s ! p) = registro_zerado)"

text \<open>The payloads of a tree, in order: the record and the position each node holds.\<close>

fun cargas :: "No option \<Rightarrow> (ref \<times> int) list" where
  "cargas None = []"
| "cargas (Some (No r0 p0 e d)) = cargas e @ [(r0, p0)] @ cargas d"

text \<open>
  What the manager maintains between the file and the index: every reference in the file
  names an object, and every node holds a position of the file together with the very
  object stored in that slot.
\<close>

definition inv_gerenciador :: "estado \<Rightarrow> bool" where
  "inv_gerenciador s =
     ((\<forall>r \<in> set (arquivo s). r < length (objetos s))
      \<and> (\<forall>(r, p) \<in> set (cargas (indice s)).
            0 \<le> p \<and> p < int (length (arquivo s)) \<and> arquivo s ! nat p = r))"

text \<open>
  A weak ordering that survives blanked records: below a node with a non-empty key, the
  right subtree holds only larger keys or empty ones.
\<close>

fun ordem_direita :: "memoria \<Rightarrow> No option \<Rightarrow> bool" where
  "ordem_direita m None = True"
| "ordem_direita m (Some (No r0 p0 e d)) =
     ((chave m r0 \<noteq> [] \<longrightarrow> (\<forall>(r, p) \<in> set (cargas d). chave m r = [] \<or> chave m r0 < chave m r))
      \<and> ordem_direita m e \<and> ordem_direita m d)"

definition inv_ordem :: "estado \<Rightarrow> bool" where
  "inv_ordem s = (inv_gerenciador s \<and> ordem_direita (objetos s) (indice s))"

text \<open>A call of \<^verbatim>\<open>remover_registro_por_cpf\<close> with the empty string.\<close>

fun remocao_de_chave_vazia :: "operacao \<Rightarrow> bool" where
  "remocao_de_chave_vazia (Remover_registro_por_cpf k) = (k = [])"
| "remocao_de_chave_vazia _ = False"

text \<open>
  A longer run: blanked nodes are left behind by four deletions, and three deletions with
  the empty key then restructure the tree around them.
\<close>

definition cenario_15 :: "operacao list" where
  "cenario_15 =
     [Novo_registro ''C'' ''c'' data0 False, Inserir_registro 0,
      Novo_registro ''D'' ''d'' data0 False, Inserir_registro 1,
      Novo_registro ''A'' ''a'' data0 False, Inserir_registro 2,
      Remover_registro_por_cpf ''C'',
      Novo_registro ''C'' ''c'' data0 False, Inserir_registro 3,
      Remover_registro_por_cpf ''C'',
      Novo_registro ''C'' ''c'' data0 False, Inserir_registro 4,
      Novo_registro ''A'' ''a'' data0 False, Inserir_registro 5,
      Remover_registro_por_cpf ''C'',
      Novo_registro ''A'' ''a'' data0 False, Inserir_registro 6,
      Remover_registro_por_cpf ''D'',
      Novo_registro ''A'' ''a'' data0 False, Inserir_registro 7,
      Remover_registro_por_cpf [], Remover_registro_por_cpf [], Remover_registro_por_cpf []]"

subsection \<open>Ordering of the index\<close>

text \<open>The keys of the in-order traversal, and the search tree ordering: they ascend strictly.\<close>

definition chaves_da_arvore :: "memoria \<Rightarrow> No option \<Rightarrow> string list" where
  "chaves_da_arvore m t = chaves m (abb_em_ordem t)"

definition abb_ordenada :: "memoria \<Rightarrow> No option \<Rightarrow> bool" where
  "abb_ordenada m t = sorted_wrt (<) (chaves_da_arvore m t)"

text \<open>
  The operations of the index alone (\<^verbatim>\<open>ArvoreBinariaBusca\<close>) and the construction of
  records: none of them changes a record.
\<close>

fun do_indice :: "operacao \<Rightarrow> bool" where
  "do_indice (Novo_registro c n d del) = True"
| "do_indice (Abb_inserir r p) = True"
| "do_indice (Abb_buscar k) = True"
| "do_indice (Abb_remover k) = True"
| "do_indice _ = False"

text \<open>The nodes hold existing objects, and the tree is ordered.\<close>

definition inv_indice :: "estado \<Rightarrow> bool" where
  "inv_indice s =
     ((\<forall>(r, p) \<in> set (cargas (indice s)). r < length (objetos s))
      \<and> abb_ordenada (objetos s) (indice s))"

section \<open>Evaluation of the scenarios\<close>

lemmas avaliar =
  inserir_novo_def inserir_registro_def novo_registro_def Registro_init_def
  estado_inicial_def arq_inserir_def abb_inserir_def chave_def remover_registro_por_cpf_def
  abb_buscar_def abb_remover_def arq_deletar_def zerar_obj_def zerar_def data0_def
  buscar_registro_por_cpf_def arq_buscar_por_posicao_def chaves_def abb_em_ordem_def
  abb_pre_ordem_def abb_pos_ordem_def abb_percurso_largura_def filhos_def contar_nos_def
  registro_na_posicao_def registro_zerado_def abb_init_def

lemma cenario_abc_state:
  "cenario_abc =
     \<lparr>objetos = [Registro_init ''A'' ''a'' data0 False, Registro_init ''B'' ''b'' data0 False,
                 Registro_init ''C'' ''c'' data0 False],
      arquivo = [0, 1, 2],
      indice = Some (No 0 0 None (Some (No 1 1 None (Some (No 2 2 None None))))),
      saida = []\<rparr>"
  by (simp add: cenario_abc_def avaliar)

lemma cenario_ma_state:
  "cenario_ma =
     \<lparr>objetos = [Registro_init ''M'' ''m'' data0 False, Registro_init ''A'' ''a'' data0 False],
      arquivo = [0, 1],
      indice = Some (No 0 0 (Some (No 1 1 None None)) None),
      saida = []\<rparr>"
  by (simp add: cenario_ma_def avaliar)

lemma indice_badc_tree:
  "indice_badc =
     Some (No 0 0 (Some (No 1 1 None None)) (Some (No 2 2 (Some (No 3 3 None None)) None)))"
  by (simp add: indice_badc_def memoria_badc_def avaliar)

text \<open>
  C1. Deleting a key that is present must tombstone the slot and take the node out of the
  index. With the single record A inserted and A deleted, the slot 0 is tombstoned, the
  deletion is reported, and the index still holds the node for position 0, its key now empty:
  the record was cleared through the shared object before the index was searched for A.
\<close>

theorem remover_registro_keeps_node_of_tombstoned_slot:
  "indice (remover_registro_por_cpf cenario_a ''A'') = Some (No 0 0 None None)
   \<and> registro_na_posicao (remover_registro_por_cpf cenario_a ''A'') 0 = Some registro_zerado
   \<and> chave (objetos (remover_registro_por_cpf cenario_a ''A'')) 0 = []
   \<and> contar_nos (indice (remover_registro_por_cpf cenario_a ''A'')) = 1
   \<and> saida (remover_registro_por_cpf cenario_a ''A'') = [Registro_removido ''A'']"
  by (simp add: cenario_a_def avaliar)

text \<open>
  C2. A record that was inserted and never deleted must be found by its key. After M and A
  are inserted and M is deleted, the record A is still live in slot 1 of the file, and the
  lookup of A returns nothing: the node of M stays at the root with an empty key, every
  search for a non-empty key turns right there, and A sits in its left subtree.
\<close>

theorem buscar_registro_misses_live_record:
  "buscar_registro_por_cpf (remover_registro_por_cpf cenario_ma ''M'') ''A'' = None
   \<and> registro_na_posicao (remover_registro_por_cpf cenario_ma ''M'') 1
       = Some (Registro_init ''A'' ''a'' data0 False)
   \<and> buscar_registro_por_cpf cenario_ma ''A'' = Some 1"
  by (simp add: cenario_ma_state avaliar)

text \<open>
  C3. After A, B, C are inserted and A is deleted, the in-order traversal must give the keys
  B, C. It gives three records, the first with the empty key; the lookup of A returns
  nothing, as the claim says.
\<close>

theorem remover_registro_abc_em_ordem:
  "chaves (objetos (remover_registro_por_cpf cenario_abc ''A''))
          (abb_em_ordem (indice (remover_registro_por_cpf cenario_abc ''A'')))
     = [[], ''B'', ''C'']
   \<and> buscar_registro_por_cpf (remover_registro_por_cpf cenario_abc ''A'') ''A'' = None"
  by (simp add: cenario_abc_state avaliar)

text \<open>
  C4. The in-order traversal must give strictly ascending keys in every reachable state.
  After M and A are inserted and M is deleted through the manager, the in-order keys are
  A followed by the empty key, which is not ascending. (The operations of the index keep
  the order as long as the records are not changed, see \<open>abb_ordenada_from_empty\<close> below;
  the deletion of the manager blanks the record first.)
\<close>

theorem em_ordem_not_ascending_after_remover_registro:
  "chaves (objetos (remover_registro_por_cpf cenario_ma ''M''))
          (abb_em_ordem (indice (remover_registro_por_cpf cenario_ma ''M'')))
     = [''A'', []]
   \<and> \<not> sorted_wrt (<)
         (chaves (objetos (remover_registro_por_cpf cenario_ma ''M''))
                 (abb_em_ordem (indice (remover_registro_por_cpf cenario_ma ''M''))))"
  by (simp add: cenario_ma_state avaliar)

text \<open>
  C7. Inserting the keys B, A, D, C in that order into an empty index gives the in-order
  keys A, B, C, D, the pre-order keys B, A, D, C and the breadth-first keys B, A, D, C.
\<close>

theorem badc_traversals:
  "chaves memoria_badc (abb_em_ordem indice_badc) = [''A'', ''B'', ''C'', ''D'']
   \<and> chaves memoria_badc (abb_pre_ordem indice_badc) = [''B'', ''A'', ''D'', ''C'']
   \<and> chaves memoria_badc (abb_percurso_largura indice_badc) = [''B'', ''A'', ''D'', ''C'']"
  by (simp add: indice_badc_tree memoria_badc_def avaliar)

section \<open>Positions of the record file\<close>

text \<open>
  C8. For every file and every integer position \<open>p\<close>: \<^verbatim>\<open>buscar_por_posicao(p)\<close> returns the
  record at \<open>p\<close> when \<open>0 \<le> p < len\<close> and nothing otherwise (a negative position does not
  count from the end), and \<^verbatim>\<open>deletar(p)\<close> with \<open>p\<close> out of range changes neither the file nor
  any record.
\<close>

theorem arq_posicao_in_and_out_of_range:
  "(0 \<le> p \<and> p < int (length (arquivo s)) \<longrightarrow>
      arq_buscar_por_posicao (arquivo s) p = Some (arquivo s ! nat p)
      \<and> registro_na_posicao s p = Some (objetos s ! (arquivo s ! nat p)))
   \<and> (\<not> (0 \<le> p \<and> p < int (length (arquivo s))) \<longrightarrow>
      arq_buscar_por_posicao (arquivo s) p = None
      \<and> registro_na_posicao s p = None
      \<and> arq_deletar (objetos s) (arquivo s) p = objetos s
      \<and> passo (Arq_deletar p) s = s)"
  by (simp add: arq_buscar_por_posicao_def registro_na_posicao_def arq_deletar_def)

theorem arq_posicao_in_and_out_of_range_witness:
  "arq_buscar_por_posicao (arquivo cenario_ma) 1 = Some 1
   \<and> registro_na_posicao cenario_ma 1 = Some (Registro_init ''A'' ''a'' data0 False)
   \<and> arq_buscar_por_posicao (arquivo cenario_ma) 2 = None
   \<and> arq_buscar_por_posicao (arquivo cenario_ma) (- 1) = None
   \<and> passo (Arq_deletar 2) cenario_ma = cenario_ma
   \<and> passo (Arq_deletar (- 1)) cenario_ma = cenario_ma"
  using arq_posicao_in_and_out_of_range[of 1 cenario_ma]
        arq_posicao_in_and_out_of_range[of 2 cenario_ma]
        arq_posicao_in_and_out_of_range[of "- 1" cenario_ma]
  by (simp add: cenario_ma_state Registro_init_def)

section \<open>Tombstones stay\<close>

lemma zerar_is_registro_zerado: "zerar r = registro_zerado"
  by (simp add: zerar_def registro_zerado_def)

lemma length_zerar_obj: "length (zerar_obj m r) = length m"
  by (simp add: zerar_obj_def)

lemma length_arq_deletar: "length (arq_deletar m regs p) = length m"
  by (simp add: arq_deletar_def length_zerar_obj)

lemma zerar_obj_keeps_zerado:
  "r < length m \<Longrightarrow> m ! r = registro_zerado \<Longrightarrow> zerar_obj m q ! r = registro_zerado"
  by (cases "q = r") (simp_all add: zerar_obj_def zerar_is_registro_zerado)

lemma arq_deletar_keeps_zerado:
  "r < length m \<Longrightarrow> m ! r = registro_zerado \<Longrightarrow> arq_deletar m regs p ! r = registro_zerado"
  by (simp add: arq_deletar_def zerar_obj_keeps_zerado)

lemma arq_deletar_zeroes_slot:
  "0 \<le> p \<Longrightarrow> p < int (length regs) \<Longrightarrow> regs ! nat p < length m \<Longrightarrow>
   arq_deletar m regs p ! (regs ! nat p) = registro_zerado"
  by (simp add: arq_deletar_def zerar_obj_def zerar_is_registro_zerado)

lemma inserir_registro_fields:
  "objetos (inserir_registro s r) = objetos s \<and> arquivo (inserir_registro s r) = arquivo s @ [r]"
  by (simp add: inserir_registro_def arq_inserir_def split: prod.splits)

lemma remover_registro_fields:
  "arquivo (remover_registro_por_cpf s k) = arquivo s
   \<and> (objetos (remover_registro_por_cpf s k) = objetos s
      \<or> (\<exists>p. objetos (remover_registro_por_cpf s k) = arq_deletar (objetos s) (arquivo s) p))"
  by (auto simp: remover_registro_por_cpf_def Let_def split: option.splits)

lemma passo_keeps_posicao_zerada:
  assumes "posicao_zerada s p"
  shows "posicao_zerada (passo a s) p \<and> arquivo (passo a s) ! p = arquivo s ! p"
proof (cases a)
  case (Novo_registro c n d del)
  with assms show ?thesis by (simp add: posicao_zerada_def novo_registro_def nth_append)
next
  case (Arq_inserir r)
  with assms show ?thesis by (simp add: posicao_zerada_def arq_inserir_def nth_append)
next
  case (Arq_deletar q)
  with assms show ?thesis
    by (simp add: posicao_zerada_def length_arq_deletar arq_deletar_keeps_zerado)
next
  case (Abb_inserir r q)
  with assms show ?thesis by (simp add: posicao_zerada_def split: prod.splits)
next
  case (Abb_remover k)
  with assms show ?thesis by (simp add: posicao_zerada_def)
next
  case (Inserir_registro r)
  with assms show ?thesis by (simp add: posicao_zerada_def inserir_registro_fields nth_append)
next
  case (Remover_registro_por_cpf k)
  from remover_registro_fields[of s k] assms Remover_registro_por_cpf show ?thesis
    by (auto simp: posicao_zerada_def length_arq_deletar arq_deletar_keeps_zerado)
qed (use assms in simp_all)


text \<open>
  C9. Once a slot of the file has been tombstoned, it stays so under every sequence of
  operations of the record file, the index and the manager (and the construction of new
  records): the slot keeps its object, and the object keeps the empty key, the empty name,
  no birth date and the flag.
\<close>

theorem tombstone_is_irreversible:
  "posicao_zerada s p \<Longrightarrow>
   posicao_zerada (executar ops s) p
   \<and> arquivo (executar ops s) ! p = arquivo s ! p
   \<and> registro_na_posicao (executar ops s) (int p) = Some registro_zerado"
proof (induction ops arbitrary: s)
  case Nil
  then show ?case
    by (simp add: executar_def posicao_zerada_def registro_na_posicao_def arq_buscar_por_posicao_def)
next
  case (Cons a ops)
  from passo_keeps_posicao_zerada[OF Cons.prems, of a]
  have z: "posicao_zerada (passo a s) p" and e: "arquivo (passo a s) ! p = arquivo s ! p"
    by simp_all
  from Cons.IH[OF z] e show ?case by (simp add: executar_def)
qed


theorem tombstone_is_irreversible_witness:
  "posicao_zerada (remover_registro_por_cpf cenario_a ''A'') 0
   \<and> registro_na_posicao
        (executar [Novo_registro ''A'' ''a'' data0 False, Inserir_registro 1, Inserir_registro 0,
                   Arq_inserir 0, Abb_inserir 0 0, Remover_registro_por_cpf ''A'', Arq_deletar 0,
                   Abb_remover []]
           (remover_registro_por_cpf cenario_a ''A'')) 0
       = Some registro_zerado"
proof -
  have z: "posicao_zerada (remover_registro_por_cpf cenario_a ''A'') 0"
    by (simp add: posicao_zerada_def cenario_a_def avaliar)
  from tombstone_is_irreversible[OF z] z show ?thesis by simp
qed

section \<open>Payloads of the tree\<close>

text \<open>
  Insertion adds at most the new payload to the tree, removal adds none, and a node found
  by the search is a node of the tree with the key searched for.
\<close>

lemma cargas_inserir_aux:
  "set (cargas (Some (fst (abb_inserir_aux m n r p)))) \<subseteq> insert (r, p) (set (cargas (Some n)))"
proof (induction m n r p rule: abb_inserir_aux.induct)
  case (1 m r0 p0 e d r p)
  show ?case
  proof (cases "chave m r < chave m r0")
    case True
    show ?thesis
    proof (cases e)
      case None
      with True show ?thesis by auto
    next
      case (Some e0)
      obtain e1 out where ins: "abb_inserir_aux m e0 r p = (e1, out)"
        by (cases "abb_inserir_aux m e0 r p")
      with "1.IH"(1)[OF True Some] have "set (cargas (Some e1)) \<subseteq> insert (r, p) (set (cargas (Some e0)))"
        by simp
      with ins Some True show ?thesis by auto
    qed
  next
    case False
    show ?thesis
    proof (cases "chave m r0 < chave m r")
      case True
      show ?thesis
      proof (cases d)
        case None
        with True False show ?thesis by auto
      next
        case (Some d0)
        obtain d1 out where ins: "abb_inserir_aux m d0 r p = (d1, out)"
          by (cases "abb_inserir_aux m d0 r p")
        with "1.IH"(2)[OF False True Some] have "set (cargas (Some d1)) \<subseteq> insert (r, p) (set (cargas (Some d0)))"
          by simp
        with ins Some True False show ?thesis by auto
      qed
    next
      case F2: False
      with False show ?thesis by auto
    qed
  qed
qed

lemma cargas_inserir:
  "set (cargas (fst (abb_inserir m t r p))) \<subseteq> insert (r, p) (set (cargas t))"
proof (cases t)
  case None
  then show ?thesis by (simp add: abb_inserir_def)
next
  case (Some n)
  with cargas_inserir_aux[of m n r p] show ?thesis
    by (cases "abb_inserir_aux m n r p") (simp add: abb_inserir_def)
qed

lemma cargas_minimo:
  "(registro (abb_minimo n), posicao (abb_minimo n)) \<in> set (cargas (Some n))"
proof (induction n rule: abb_minimo.induct)
  case (1 r0 p0 e d)
  show ?case
  proof (cases e)
    case None
    then show ?thesis by simp
  next
    case (Some e0)
    with "1.IH"[OF Some] show ?thesis by simp
  qed
qed

lemma cargas_remover_aux:
  "set (cargas (abb_remover_aux m t k)) \<subseteq> set (cargas t)"
proof (induction m t k rule: abb_remover_aux.induct)
  case (1 m k)
  then show ?case by simp
next
  case (2 m r0 p0 e d k)
  show ?case
  proof (cases "k < chave m r0")
    case True
    with "2.IH"(1)[OF True] show ?thesis by auto
  next
    case False
    show ?thesis
    proof (cases "chave m r0 < k")
      case True
      with False "2.IH"(2)[OF False True] show ?thesis by auto
    next
      case F2: False
      show ?thesis
      proof (cases e)
        case None
        with False F2 show ?thesis by auto
      next
        case (Some e0)
        show ?thesis
        proof (cases d)
          case None
          with False F2 Some show ?thesis by auto
        next
          case Sd: (Some d0)
          from "2.IH"(3)[OF False F2 Some Sd refl]
          have "set (cargas (abb_remover_aux m d (chave m (registro (abb_minimo d0))))) \<subseteq> set (cargas d)" .
          with cargas_minimo[of d0] False F2 Some Sd show ?thesis by (auto simp: Let_def)
        qed
      qed
    qed
  qed
qed

lemma buscar_aux_found:
  "abb_buscar_aux m t k = Some n \<Longrightarrow>
   (registro n, posicao n) \<in> set (cargas t) \<and> chave m (registro n) = k"
proof (induction m t k rule: abb_buscar_aux.induct)
  case (1 m k)
  then show ?case by simp
next
  case (2 m r0 p0 e d k)
  show ?case
  proof (cases "k = chave m r0")
    case True
    with "2.prems" show ?thesis by auto
  next
    case False
    show ?thesis
    proof (cases "k < chave m r0")
      case True
      with False "2.prems" "2.IH"(1)[OF False True] show ?thesis by auto
    next
      case F2: False
      with False "2.prems" "2.IH"(2)[OF False F2] show ?thesis by auto
    qed
  qed
qed

section \<open>The index on unchanged records\<close>

text \<open>
  As long as no record is changed, \<^verbatim>\<open>inserir\<close> and \<^verbatim>\<open>remover\<close> keep the tree ordered, and in
  an ordered tree the search finds every key that a node holds. The in-order keys after an
  insertion are the old ones, with the new key when it was absent; after a removal they
  are the old ones without the key removed.
\<close>

lemma abb_em_ordem_aux_cargas: "abb_em_ordem_aux t res = res @ map fst (cargas t)"
  by (induction t res rule: abb_em_ordem_aux.induct) simp_all

lemma chaves_da_arvore_cargas: "chaves_da_arvore m t = map (\<lambda>c. chave m (fst c)) (cargas t)"
  by (simp add: chaves_da_arvore_def chaves_def abb_em_ordem_def abb_em_ordem_aux_cargas comp_def)

lemma chaves_da_arvore_None: "chaves_da_arvore m None = []"
  by (simp add: chaves_da_arvore_cargas)

lemma chaves_da_arvore_No:
  "chaves_da_arvore m (Some (No r0 p0 e d))
     = chaves_da_arvore m e @ [chave m r0] @ chaves_da_arvore m d"
  by (simp add: chaves_da_arvore_cargas)

lemma ordenada_No:
  "sorted_wrt (<) (chaves_da_arvore m (Some (No r0 p0 e d))) =
     (sorted_wrt (<) (chaves_da_arvore m e) \<and> sorted_wrt (<) (chaves_da_arvore m d)
      \<and> (\<forall>x \<in> set (chaves_da_arvore m e). x < chave m r0)
      \<and> (\<forall>y \<in> set (chaves_da_arvore m d). chave m r0 < y))"
proof -
  have "x < y" if "\<forall>x \<in> set (chaves_da_arvore m e). x < chave m r0"
    and "\<forall>y \<in> set (chaves_da_arvore m d). chave m r0 < y"
    and "x \<in> set (chaves_da_arvore m e)" and "y \<in> set (chaves_da_arvore m d)" for x y
    using that by (blast intro: less_trans)
  then show ?thesis by (auto simp: chaves_da_arvore_No sorted_wrt_append)
qed

lemma set_chaves_inserir_aux:
  "set (chaves_da_arvore m (Some (fst (abb_inserir_aux m n r p))))
     \<subseteq> insert (chave m r) (set (chaves_da_arvore m (Some n)))"
  using cargas_inserir_aux[of m n r p] by (fastforce simp: chaves_da_arvore_cargas)

lemma set_chaves_remover_aux:
  "set (chaves_da_arvore m (abb_remover_aux m t k)) \<subseteq> set (chaves_da_arvore m t)"
  using cargas_remover_aux[of m t k] by (fastforce simp: chaves_da_arvore_cargas)

lemma ordenada_inserir_aux:
  "sorted_wrt (<) (chaves_da_arvore m (Some n)) \<Longrightarrow>
   sorted_wrt (<) (chaves_da_arvore m (Some (fst (abb_inserir_aux m n r p))))"
proof (induction m n r p rule: abb_inserir_aux.induct)
  case (1 m r0 p0 e d r p)
  note so = "1.prems"[unfolded ordenada_No]
  show ?case
  proof (cases "chave m r < chave m r0")
    case True
    show ?thesis
    proof (cases e)
      case None
      from True so have "\<forall>y \<in> set (chaves_da_arvore m d). chave m r < y"
        by (blast intro: less_trans)
      with None True so show ?thesis
        by (simp add: ordenada_No) (simp_all add: chaves_da_arvore_No chaves_da_arvore_None)
    next
      case (Some e0)
      obtain e1 out where ins: "abb_inserir_aux m e0 r p = (e1, out)"
        by (cases "abb_inserir_aux m e0 r p")
      from so Some "1.IH"(1)[OF True Some] ins
      have s1: "sorted_wrt (<) (chaves_da_arvore m (Some e1))" by simp
      from set_chaves_inserir_aux[of m e0 r p] ins
      have "set (chaves_da_arvore m (Some e1)) \<subseteq> insert (chave m r) (set (chaves_da_arvore m e))"
        using Some by simp
      with so True have "\<forall>x \<in> set (chaves_da_arvore m (Some e1)). x < chave m r0" by auto
      with s1 so ins Some True show ?thesis by (simp add: ordenada_No)
    qed
  next
    case False
    show ?thesis
    proof (cases "chave m r0 < chave m r")
      case True
      show ?thesis
      proof (cases d)
        case None
        from True so have "\<forall>x \<in> set (chaves_da_arvore m e). x < chave m r"
          by (blast intro: less_trans)
        with None True False so show ?thesis
          by (simp add: ordenada_No) (simp_all add: chaves_da_arvore_No chaves_da_arvore_None)
      next
        case (Some d0)
        obtain d1 out where ins: "abb_inserir_aux m d0 r p = (d1, out)"
          by (cases "abb_inserir_aux m d0 r p")
        from so Some "1.IH"(2)[OF False True Some] ins
        have s1: "sorted_wrt (<) (chaves_da_arvore m (Some d1))" by simp
        from set_chaves_inserir_aux[of m d0 r p] ins
        have "set (chaves_da_arvore m (Some d1)) \<subseteq> insert (chave m r) (set (chaves_da_arvore m d))"
          using Some by simp
        with so True have "\<forall>y \<in> set (chaves_da_arvore m (Some d1)). chave m r0 < y" by auto
        with s1 so ins Some True False show ?thesis by (simp add: ordenada_No)
      qed
    next
      case F2: False
      with False "1.prems" show ?thesis by simp
    qed
  qed
qed

lemma abb_ordenada_inserir:
  "abb_ordenada m t \<Longrightarrow> abb_ordenada m (fst (abb_inserir m t r p))"
proof (cases t)
  case None
  then show ?thesis
    by (simp add: abb_ordenada_def abb_inserir_def chaves_da_arvore_No chaves_da_arvore_None)
next
  case (Some n)
  assume "abb_ordenada m t"
  with Some ordenada_inserir_aux[of m n r p] show ?thesis
    by (cases "abb_inserir_aux m n r p") (simp add: abb_ordenada_def abb_inserir_def)
qed

lemma cargas_minimo_hd:
  "\<exists>cs. cargas (Some n) = (registro (abb_minimo n), posicao (abb_minimo n)) # cs"
proof (induction n rule: abb_minimo.induct)
  case (1 r0 p0 e d)
  show ?case
  proof (cases e)
    case None
    then show ?thesis by simp
  next
    case (Some e0)
    with "1.IH"[OF Some] show ?thesis by auto
  qed
qed

lemma filter_ne_id: "\<forall>x \<in> set xs. x \<noteq> k \<Longrightarrow> filter (\<lambda>x. x \<noteq> k) xs = xs"
  by (induction xs) auto

lemma chaves_remover_aux:
  "sorted_wrt (<) (chaves_da_arvore m t) \<Longrightarrow>
   chaves_da_arvore m (abb_remover_aux m t k) = filter (\<lambda>x. x \<noteq> k) (chaves_da_arvore m t)"
proof (induction m t k rule: abb_remover_aux.induct)
  case (1 m k)
  then show ?case by (simp add: chaves_da_arvore_None)
next
  case (2 m r0 p0 e d k)
  note so = "2.prems"[unfolded ordenada_No]
  show ?case
  proof (cases "k < chave m r0")
    case True
    with so have "\<forall>y \<in> set (chaves_da_arvore m d). y \<noteq> k" by auto
    then have fd: "filter (\<lambda>x. x \<noteq> k) (chaves_da_arvore m d) = chaves_da_arvore m d"
      by (rule filter_ne_id)
    from True so "2.IH"(1)[OF True] fd show ?thesis by (auto simp: chaves_da_arvore_No)
  next
    case False
    show ?thesis
    proof (cases "chave m r0 < k")
      case True
      with so have "\<forall>x \<in> set (chaves_da_arvore m e). x \<noteq> k" by auto
      then have fe: "filter (\<lambda>x. x \<noteq> k) (chaves_da_arvore m e) = chaves_da_arvore m e"
        by (rule filter_ne_id)
      from True False so "2.IH"(2)[OF False True] fe show ?thesis
        by (auto simp: chaves_da_arvore_No)
    next
      case F2: False
      with False have eq: "k = chave m r0" by auto
      with so have "\<forall>x \<in> set (chaves_da_arvore m e). x \<noteq> k"
        and "\<forall>y \<in> set (chaves_da_arvore m d). y \<noteq> k" by auto
      then have fe: "filter (\<lambda>x. x \<noteq> k) (chaves_da_arvore m e) = chaves_da_arvore m e"
        and fd: "filter (\<lambda>x. x \<noteq> k) (chaves_da_arvore m d) = chaves_da_arvore m d"
        by (simp_all add: filter_ne_id)
      have goal: "filter (\<lambda>x. x \<noteq> k) (chaves_da_arvore m (Some (No r0 p0 e d)))
                  = chaves_da_arvore m e @ chaves_da_arvore m d"
        using fe fd eq by (simp add: chaves_da_arvore_No)
      show ?thesis
      proof (cases e)
        case None
        with False F2 goal show ?thesis by (simp add: chaves_da_arvore_None)
      next
        case (Some e0)
        show ?thesis
        proof (cases d)
          case None
          with False F2 Some goal show ?thesis by (simp add: chaves_da_arvore_None)
        next
          case Sd: (Some d0)
          let ?suc = "abb_minimo d0"
          let ?ks = "chave m (registro ?suc)"
          from cargas_minimo_hd[of d0] obtain cs
            where cs: "cargas (Some d0) = (registro ?suc, posicao ?suc) # cs" by auto
          then have kd: "chaves_da_arvore m d = ?ks # map (\<lambda>c. chave m (fst c)) cs"
            using Sd by (simp add: chaves_da_arvore_cargas)
          with so have "\<forall>y \<in> set (map (\<lambda>c. chave m (fst c)) cs). y \<noteq> ?ks" by auto
          then have "filter (\<lambda>x. x \<noteq> ?ks) (chaves_da_arvore m d) = map (\<lambda>c. chave m (fst c)) cs"
            using kd by (simp add: filter_ne_id)
          with "2.IH"(3)[OF False F2 Some Sd refl] so
          have "chaves_da_arvore m (abb_remover_aux m d ?ks) = map (\<lambda>c. chave m (fst c)) cs"
            by simp
          with kd have "chaves_da_arvore m
                          (Some (No (registro ?suc) (posicao ?suc) e (abb_remover_aux m d ?ks)))
                        = chaves_da_arvore m e @ chaves_da_arvore m d"
            by (simp add: chaves_da_arvore_No)
          with False F2 Some Sd goal show ?thesis by (simp add: Let_def)
        qed
      qed
    qed
  qed
qed

lemma abb_ordenada_remover:
  "abb_ordenada m t \<Longrightarrow> abb_ordenada m (abb_remover m t k)"
  by (simp add: abb_ordenada_def abb_remover_def chaves_remover_aux sorted_wrt_filter)


text \<open>
  Every sequence of index operations and record constructions, run from the empty state,
  leaves the index ordered. (The deletion of the manager is not among them: it blanks the
  record first, see C1 and C4.)
\<close>

lemma inv_indice_passo:
  assumes "inv_indice s" and "do_indice a"
  shows "inv_indice (passo a s)"
proof (cases a)
  case (Novo_registro c n d del)
  from assms(1) have "chaves_da_arvore (objetos s @ [Registro_init c n d del]) (indice s)
                      = chaves_da_arvore (objetos s) (indice s)"
    by (auto simp: inv_indice_def chaves_da_arvore_cargas chave_def nth_append)
  with assms(1) Novo_registro show ?thesis
    by (auto simp: inv_indice_def abb_ordenada_def novo_registro_def)
next
  case (Abb_inserir r p)
  show ?thesis
  proof (cases "r < length (objetos s)")
    case True
    obtain t1 out where ins: "abb_inserir (objetos s) (indice s) r p = (t1, out)"
      by (cases "abb_inserir (objetos s) (indice s) r p")
    from cargas_inserir[of "objetos s" "indice s" r p] assms(1) True ins
    have refs: "\<forall>(r1, p1) \<in> set (cargas t1). r1 < length (objetos s)"
      by (auto simp: inv_indice_def)
    from assms(1) abb_ordenada_inserir[of "objetos s" "indice s" r p] ins
    have "abb_ordenada (objetos s) t1" by (simp add: inv_indice_def)
    with refs True Abb_inserir ins show ?thesis by (simp add: inv_indice_def)
  next
    case False
    with assms(1) Abb_inserir show ?thesis by simp
  qed
next
  case (Abb_remover k)
  from cargas_remover_aux[of "objetos s" "indice s" k] assms(1)
  have "\<forall>(r1, p1) \<in> set (cargas (abb_remover (objetos s) (indice s) k)). r1 < length (objetos s)"
    by (auto simp: inv_indice_def abb_remover_def)
  with assms(1) Abb_remover abb_ordenada_remover[of "objetos s" "indice s" k]
  show ?thesis by (simp add: inv_indice_def)
qed (use assms in simp_all)

lemma abb_ordenada_executar:
  "inv_indice s \<Longrightarrow> \<forall>a \<in> set ops. do_indice a \<Longrightarrow> inv_indice (executar ops s)"
proof (induction ops arbitrary: s)
  case Nil
  then show ?case by (simp add: executar_def)
next
  case (Cons a ops)
  from Cons.prems have "inv_indice (passo a s)" by (simp add: inv_indice_passo)
  with Cons.IH[of "passo a s"] Cons.prems(2) show ?case by (simp add: executar_def)
qed

lemma abb_ordenada_from_empty:
  "\<forall>a \<in> set ops. do_indice a \<Longrightarrow>
   abb_ordenada (objetos (executar ops estado_inicial)) (indice (executar ops estado_inicial))"
proof -
  assume a: "\<forall>a \<in> set ops. do_indice a"
  have "inv_indice estado_inicial"
    by (simp add: inv_indice_def abb_ordenada_def estado_inicial_def chaves_da_arvore_None)
  from abb_ordenada_executar[OF this a] show ?thesis by (simp add: inv_indice_def)
qed

section \<open>Duplicate keys in the index\<close>








text \<open>
  Where the ordering is lost, a node can hold a key that the search does not reach, and
  the insertion is then not rejected: after M and A are inserted and M is deleted through
  the manager, a second record with key A is attached to the right of the blanked root.
\<close>

lemma abb_inserir_accepts_key_out_of_reach:
  "chaves (objetos cenario_ma_a) (abb_em_ordem (indice cenario_ma_a)) = [''A'', [], ''A'']
   \<and> indice cenario_ma_a
       = Some (No 0 0 (Some (No 1 1 None None)) (Some (No 2 2 None None)))
   \<and> saida cenario_ma_a = [Registro_removido ''M'']"
  by (simp add: cenario_ma_a_def cenario_ma_state avaliar)

section \<open>What the manager maintains\<close>

text \<open>
  Every state reached through the manager satisfies \<open>inv_gerenciador\<close>: insertion hands one
  object to the file and to the node, with the position the file returned.
\<close>

lemma inv_gerenciador_inicial: "inv_gerenciador estado_inicial"
  by (simp add: inv_gerenciador_def estado_inicial_def)

lemma inv_novo_registro: "inv_gerenciador s \<Longrightarrow> inv_gerenciador (novo_registro s reg)"
  by (auto simp: inv_gerenciador_def novo_registro_def)

lemma inserir_registro_state:
  "inserir_registro s r =
     s\<lparr>arquivo := arquivo s @ [r],
       indice := fst (abb_inserir (objetos s) (indice s) r (int (length (arquivo s)))),
       saida := saida s @ snd (abb_inserir (objetos s) (indice s) r (int (length (arquivo s))))\<rparr>"
  by (simp add: inserir_registro_def arq_inserir_def split: prod.splits)

lemma inv_inserir_registro:
  assumes "inv_gerenciador s" and "r < length (objetos s)"
  shows "inv_gerenciador (inserir_registro s r)"
proof -
  let ?pos = "int (length (arquivo s))"
  have sub: "set (cargas (fst (abb_inserir (objetos s) (indice s) r ?pos)))
             \<subseteq> insert (r, ?pos) (set (cargas (indice s)))"
    by (rule cargas_inserir)
  have "0 \<le> p \<and> p < int (length (arquivo s @ [r])) \<and> (arquivo s @ [r]) ! nat p = r'"
    if "(r', p) \<in> set (cargas (fst (abb_inserir (objetos s) (indice s) r ?pos)))" for r' p
  proof (cases "(r', p) = (r, ?pos)")
    case True
    then show ?thesis by simp
  next
    case False
    with that sub have "(r', p) \<in> set (cargas (indice s))" by auto
    with assms(1) have old: "0 \<le> p \<and> p < int (length (arquivo s)) \<and> arquivo s ! nat p = r'"
      by (auto simp: inv_gerenciador_def)
    then have "nat p < length (arquivo s)" by linarith
    with old show ?thesis by (simp add: nth_append)
  qed
  with assms show ?thesis
    by (auto simp: inv_gerenciador_def inserir_registro_state)
qed

lemma inv_remover_registro:
  assumes "inv_gerenciador s"
  shows "inv_gerenciador (remover_registro_por_cpf s k)"
proof (cases "abb_buscar (objetos s) (indice s) k")
  case None
  with assms show ?thesis by (simp add: remover_registro_por_cpf_def inv_gerenciador_def)
next
  case (Some n)
  let ?m1 = "arq_deletar (objetos s) (arquivo s) (posicao n)"
  have "set (cargas (abb_remover ?m1 (indice s) k)) \<subseteq> set (cargas (indice s))"
    by (simp add: abb_remover_def cargas_remover_aux)
  with assms Some show ?thesis
    by (auto simp: remover_registro_por_cpf_def inv_gerenciador_def Let_def length_arq_deletar)
qed



lemma inv_refs:
  assumes "inv_gerenciador s" and "(r, p) \<in> set (cargas (indice s))"
  shows "0 \<le> p \<and> p < int (length (arquivo s)) \<and> arquivo s ! nat p = r \<and> r < length (objetos s)"
proof -
  from assms have a: "0 \<le> p \<and> p < int (length (arquivo s)) \<and> arquivo s ! nat p = r"
    by (auto simp: inv_gerenciador_def)
  then have "nat p < length (arquivo s)" by linarith
  then have "arquivo s ! nat p \<in> set (arquivo s)" by (rule nth_mem)
  with assms(1) a show ?thesis by (auto simp: inv_gerenciador_def)
qed



section \<open>Deletion through the manager\<close>

text \<open>
  \<^verbatim>\<open>zerar\<close> blanks the key of one object. A removal that meets no node with the key returns
  the tree as it is. Insertion keeps the weak ordering, and blanking keys keeps it.
\<close>

lemma chave_zerar_obj:
  "chave (zerar_obj m r) q = (if q = r \<and> r < length m then [] else chave m q)"
  by (cases "q = r"; cases "r < length m")
     (simp_all add: chave_def zerar_obj_def zerar_def list_update_beyond)

lemma ordem_direita_mono:
  "ordem_direita m t \<Longrightarrow>
   \<forall>(r, p) \<in> set (cargas t). chave m' r = chave m r \<or> chave m' r = [] \<Longrightarrow>
   ordem_direita m' t"
proof (induction m t rule: ordem_direita.induct)
  case (1 m)
  then show ?case by simp
next
  case (2 m r0 p0 e d)
  from "2.prems" have e: "ordem_direita m' e" and d: "ordem_direita m' d"
    using "2.IH" by auto
  have "chave m' r = [] \<or> chave m' r0 < chave m' r"
    if ne: "chave m' r0 \<noteq> []" and mem: "(r, p) \<in> set (cargas d)" for r p
  proof -
    from "2.prems"(2) ne have k0: "chave m' r0 = chave m r0" by auto
    with ne "2.prems"(1) mem have "chave m r = [] \<or> chave m r0 < chave m r" by auto
    moreover from "2.prems"(2) mem have "chave m' r = chave m r \<or> chave m' r = []" by auto
    ultimately show ?thesis using k0 by auto
  qed
  with e d show ?case by auto
qed

lemma ordem_direita_inserir_aux:
  "ordem_direita m (Some n) \<Longrightarrow> ordem_direita m (Some (fst (abb_inserir_aux m n r p)))"
proof (induction m n r p rule: abb_inserir_aux.induct)
  case (1 m r0 p0 e d r p)
  show ?case
  proof (cases "chave m r < chave m r0")
    case True
    show ?thesis
    proof (cases e)
      case None
      with True "1.prems" show ?thesis by simp
    next
      case (Some e0)
      obtain e1 out where ins: "abb_inserir_aux m e0 r p = (e1, out)"
        by (cases "abb_inserir_aux m e0 r p")
      from "1.prems" Some have "ordem_direita m (Some e0)" by simp
      with "1.IH"(1)[OF True Some] ins have "ordem_direita m (Some e1)" by simp
      with ins Some True "1.prems" show ?thesis by simp
    qed
  next
    case False
    show ?thesis
    proof (cases "chave m r0 < chave m r")
      case True
      show ?thesis
      proof (cases d)
        case None
        with True False "1.prems" show ?thesis by simp
      next
        case (Some d0)
        obtain d1 out where ins: "abb_inserir_aux m d0 r p = (d1, out)"
          by (cases "abb_inserir_aux m d0 r p")
        from "1.prems" Some have "ordem_direita m (Some d0)" by simp
        with "1.IH"(2)[OF False True Some] ins have od: "ordem_direita m (Some d1)" by simp
        from cargas_inserir_aux[of m d0 r p] ins
        have sub: "set (cargas (Some d1)) \<subseteq> insert (r, p) (set (cargas (Some d0)))" by simp
        have "chave m r1 = [] \<or> chave m r0 < chave m r1"
          if "chave m r0 \<noteq> []" and "(r1, p1) \<in> set (cargas (Some d1))" for r1 p1
        proof (cases "(r1, p1) = (r, p)")
          case True
          with \<open>chave m r0 < chave m r\<close> show ?thesis by simp
        next
          case F3: False
          with that(2) sub have "(r1, p1) \<in> set (cargas d)" using Some by auto
          with "1.prems" that(1) show ?thesis by auto
        qed
        with od ins Some True False "1.prems" show ?thesis by auto
      qed
    next
      case F2: False
      with False "1.prems" show ?thesis by simp
    qed
  qed
qed

lemma ordem_direita_inserir:
  "ordem_direita m t \<Longrightarrow> ordem_direita m (fst (abb_inserir m t r p))"
proof (cases t)
  case None
  then show ?thesis by (simp add: abb_inserir_def)
next
  case (Some n)
  assume "ordem_direita m t"
  with Some ordem_direita_inserir_aux[of m n r p] show ?thesis
    by (cases "abb_inserir_aux m n r p") (simp add: abb_inserir_def)
qed

lemma abb_remover_aux_absent:
  "\<forall>(r, p) \<in> set (cargas t). chave m r \<noteq> k \<Longrightarrow> abb_remover_aux m t k = t"
proof (induction m t k rule: abb_remover_aux.induct)
  case (1 m k)
  then show ?case by simp
next
  case (2 m r0 p0 e d k)
  from "2.prems" have ne: "chave m r0 \<noteq> k" by simp
  show ?case
  proof (cases "k < chave m r0")
    case True
    with "2.IH"(1)[OF True] "2.prems" show ?thesis by simp
  next
    case False
    with ne have gt: "chave m r0 < k" by auto
    with False "2.IH"(2)[OF False gt] "2.prems" show ?thesis by simp
  qed
qed

text \<open>
  The removal after the record has been blanked: the search path to the node is the same,
  at the node the key is now empty and the removal turns right, and in the right subtree
  no key equals the one searched for.
\<close>

lemma abb_remover_aux_after_zerar:
  assumes "abb_buscar_aux m t k = Some n" and "k \<noteq> []" and "registro n < length m"
    and "ordem_direita m t"
  shows "abb_remover_aux (zerar_obj m (registro n)) t k = t"
  using assms
proof (induction m t k rule: abb_buscar_aux.induct)
  case (1 m k)
  then show ?case by simp
next
  case (2 m r0 p0 e d k)
  let ?m1 = "zerar_obj m (registro n)"
  from buscar_aux_found[OF "2.prems"(1)] have kn: "chave m (registro n) = k" by simp
  show ?case
  proof (cases "k = chave m r0")
    case True
    with "2.prems"(1) have n: "n = No r0 p0 e d" by simp
    with "2.prems"(3) have z: "chave ?m1 r0 = []" by (simp add: chave_zerar_obj)
    from "2.prems"(2) have pos: "[] < k" by (cases k) simp_all
    have "chave ?m1 r \<noteq> k" if "(r, p) \<in> set (cargas d)" for r p
    proof -
      from "2.prems"(4) True "2.prems"(2) that have "chave m r = [] \<or> k < chave m r" by auto
      then show ?thesis using "2.prems"(2) by (auto simp: chave_zerar_obj)
    qed
    then have "abb_remover_aux ?m1 d k = d" by (intro abb_remover_aux_absent) auto
    with z pos n show ?thesis by simp
  next
    case False
    with kn have r0: "r0 \<noteq> registro n" by auto
    then have same: "chave ?m1 r0 = chave m r0" by (simp add: chave_zerar_obj)
    show ?thesis
    proof (cases "k < chave m r0")
      case True
      with False "2.prems" have "abb_buscar_aux m e k = Some n" and "ordem_direita m e" by simp_all
      with "2.IH"(1)[OF False True] "2.prems"(2,3) have "abb_remover_aux ?m1 e k = e" by simp
      with True same show ?thesis by simp
    next
      case F2: False
      with False have gt: "chave m r0 < k" by auto
      from False F2 "2.prems" have "abb_buscar_aux m d k = Some n" and "ordem_direita m d" by simp_all
      with "2.IH"(2)[OF False F2] "2.prems"(2,3) have "abb_remover_aux ?m1 d k = d" by simp
      with F2 gt same show ?thesis by simp
    qed
  qed
qed

lemma remover_registro_found_state:
  assumes "inv_ordem s" and "abb_buscar (objetos s) (indice s) k = Some n" and "k \<noteq> []"
  shows "remover_registro_por_cpf s k =
           s\<lparr>objetos := zerar_obj (objetos s) (registro n),
             indice := indice s,
             saida := saida s @ [Registro_removido k]\<rparr>"
proof -
  from assms(2) have f: "abb_buscar_aux (objetos s) (indice s) k = Some n"
    by (simp add: abb_buscar_def)
  from buscar_aux_found[OF f] have mem: "(registro n, posicao n) \<in> set (cargas (indice s))"
    by simp
  from assms(1) have inv: "inv_gerenciador s" and ord: "ordem_direita (objetos s) (indice s)"
    by (simp_all add: inv_ordem_def)
  from inv_refs[OF inv mem]
  have rng: "0 \<le> posicao n \<and> posicao n < int (length (arquivo s))"
    and al: "arquivo s ! nat (posicao n) = registro n"
    and val: "registro n < length (objetos s)" by simp_all
  from rng al have del: "arq_deletar (objetos s) (arquivo s) (posicao n)
                         = zerar_obj (objetos s) (registro n)"
    by (simp add: arq_deletar_def)
  from abb_remover_aux_after_zerar[OF f assms(3) val ord]
  have "abb_remover (zerar_obj (objetos s) (registro n)) (indice s) k = indice s"
    by (simp add: abb_remover_def)
  with del assms(2) show ?thesis by (simp add: remover_registro_por_cpf_def Let_def)
qed

lemma inv_ordem_inicial: "inv_ordem estado_inicial"
  using inv_gerenciador_inicial by (simp add: inv_ordem_def) (simp add: estado_inicial_def)

lemma inv_ordem_novo_registro:
  assumes "inv_ordem s"
  shows "inv_ordem (novo_registro s reg)"
proof -
  from assms have inv: "inv_gerenciador s" and ord: "ordem_direita (objetos s) (indice s)"
    by (simp_all add: inv_ordem_def)
  have "chave (objetos s @ [reg]) r = chave (objetos s) r"
    if "(r, p) \<in> set (cargas (indice s))" for r p
    using inv_refs[OF inv that] by (simp add: chave_def nth_append)
  then have "ordem_direita (objetos s @ [reg]) (indice s)"
    by (intro ordem_direita_mono[OF ord]) auto
  with inv show ?thesis by (simp add: inv_ordem_def inv_novo_registro) (simp add: novo_registro_def)
qed

lemma inv_ordem_inserir_registro:
  assumes "inv_ordem s" and "r < length (objetos s)"
  shows "inv_ordem (inserir_registro s r)"
  using assms
  by (simp add: inv_ordem_def inv_inserir_registro) (simp add: inserir_registro_state ordem_direita_inserir)

lemma inv_ordem_remover_registro:
  assumes "inv_ordem s" and "k \<noteq> []"
  shows "inv_ordem (remover_registro_por_cpf s k)"
proof (cases "abb_buscar (objetos s) (indice s) k")
  case None
  with assms(1) show ?thesis
    by (simp add: remover_registro_por_cpf_def inv_ordem_def inv_gerenciador_def)
next
  case (Some n)
  from assms(1) have inv: "inv_gerenciador s" and ord: "ordem_direita (objetos s) (indice s)"
    by (simp_all add: inv_ordem_def)
  have "ordem_direita (zerar_obj (objetos s) (registro n)) (indice s)"
    by (intro ordem_direita_mono[OF ord]) (auto simp: chave_zerar_obj)
  with remover_registro_found_state[OF assms(1) Some assms(2)] inv_remover_registro[OF inv, of k]
  show ?thesis by (simp add: inv_ordem_def)
qed

lemma inv_ordem_passo:
  "inv_ordem s \<Longrightarrow> do_gerenciador a \<Longrightarrow> \<not> remocao_de_chave_vazia a \<Longrightarrow> inv_ordem (passo a s)"
  by (cases a)
     (simp_all add: inv_ordem_novo_registro inv_ordem_inserir_registro inv_ordem_remover_registro)

lemma inv_ordem_executar:
  "inv_ordem s \<Longrightarrow> \<forall>a \<in> set ops. do_gerenciador a \<and> \<not> remocao_de_chave_vazia a \<Longrightarrow>
   inv_ordem (executar ops s)"
proof (induction ops arbitrary: s)
  case Nil
  then show ?case by (simp add: executar_def)
next
  case (Cons a ops)
  from Cons.prems have "inv_ordem (passo a s)" by (simp add: inv_ordem_passo)
  with Cons.IH[of "passo a s"] Cons.prems(2) show ?case by (simp add: executar_def)
qed

text \<open>
  C10, as stated, at the empty key: a record whose key is the empty string is indexed, and
  deleting it does remove its node (blanking leaves the key as it was, so the removal
  finds it). The number of nodes goes from one to zero.
\<close>

theorem remover_registro_empty_key_removes_node:
  "abb_buscar (objetos cenario_vazia) (indice cenario_vazia) [] = Some (No 0 0 None None)
   \<and> contar_nos (indice cenario_vazia) = 1
   \<and> indice (remover_registro_por_cpf cenario_vazia []) = None
   \<and> contar_nos (indice (remover_registro_por_cpf cenario_vazia [])) = 0"
  by (simp add: cenario_vazia_def avaliar)

text \<open>
  C10, amended. In every state reached through the manager by constructing and inserting
  records and by deleting non-empty keys, for every non-empty key that the index search
  finds: the file slot at the node's position holds the very object of the node; deleting
  the key leaves the index tree unchanged (same number of nodes); the node stays in the
  tree, its key is now the empty string, and the slot it points at is tombstoned.
\<close>

theorem remover_registro_leaves_blank_node:
  assumes "\<forall>a \<in> set ops. do_gerenciador a \<and> \<not> remocao_de_chave_vazia a"
    and "s = executar ops estado_inicial"
    and "k \<noteq> []"
    and "abb_buscar (objetos s) (indice s) k = Some n"
  shows "arq_buscar_por_posicao (arquivo s) (posicao n) = Some (registro n)
         \<and> indice (remover_registro_por_cpf s k) = indice s
         \<and> contar_nos (indice (remover_registro_por_cpf s k)) = contar_nos (indice s)
         \<and> (registro n, posicao n) \<in> set (cargas (indice (remover_registro_por_cpf s k)))
         \<and> chave (objetos (remover_registro_por_cpf s k)) (registro n) = []
         \<and> registro_na_posicao (remover_registro_por_cpf s k) (posicao n) = Some registro_zerado"
proof -
  from assms(1,2) have io: "inv_ordem s" by (simp add: inv_ordem_executar inv_ordem_inicial)
  then have inv: "inv_gerenciador s" by (simp add: inv_ordem_def)
  from assms(4) have f: "abb_buscar_aux (objetos s) (indice s) k = Some n"
    by (simp add: abb_buscar_def)
  from buscar_aux_found[OF f] have mem: "(registro n, posicao n) \<in> set (cargas (indice s))"
    by simp
  from inv_refs[OF inv mem]
  have rng: "0 \<le> posicao n \<and> posicao n < int (length (arquivo s))"
    and al: "arquivo s ! nat (posicao n) = registro n"
    and val: "registro n < length (objetos s)" by simp_all
  note st = remover_registro_found_state[OF io assms(4) assms(3)]
  have z: "zerar_obj (objetos s) (registro n) ! registro n = registro_zerado"
    using val by (simp add: zerar_obj_def zerar_is_registro_zerado)
  show ?thesis
    using st rng al val mem z
    by (simp add: arq_buscar_por_posicao_def registro_na_posicao_def chave_zerar_obj)
qed

theorem remover_registro_leaves_blank_node_witness:
  "list_all (\<lambda>a. do_gerenciador a \<and> \<not> remocao_de_chave_vazia a)
      [Novo_registro ''M'' ''m'' data0 False, Inserir_registro 0,
       Novo_registro ''A'' ''a'' data0 False, Inserir_registro 1]
   \<and> cenario_ma = executar [Novo_registro ''M'' ''m'' data0 False, Inserir_registro 0,
                            Novo_registro ''A'' ''a'' data0 False, Inserir_registro 1] estado_inicial
   \<and> ''M'' \<noteq> []
   \<and> abb_buscar (objetos cenario_ma) (indice cenario_ma) ''M''
       = Some (No 0 0 (Some (No 1 1 None None)) None)
   \<and> indice (remover_registro_por_cpf cenario_ma ''M'') = indice cenario_ma
   \<and> contar_nos (indice (remover_registro_por_cpf cenario_ma ''M'')) = 2
   \<and> chave (objetos (remover_registro_por_cpf cenario_ma ''M'')) 0 = []
   \<and> registro_na_posicao (remover_registro_por_cpf cenario_ma ''M'') 0 = Some registro_zerado"
proof -
  let ?ops = "[Novo_registro ''M'' ''m'' data0 False, Inserir_registro 0,
               Novo_registro ''A'' ''a'' data0 False, Inserir_registro 1]"
  have h1: "\<forall>a \<in> set ?ops. do_gerenciador a \<and> \<not> remocao_de_chave_vazia a" by simp
  have h2: "cenario_ma = executar ?ops estado_inicial"
    by (simp add: cenario_ma_state executar_def avaliar)
  have h3: "''M'' \<noteq> []" by simp
  have h4: "abb_buscar (objetos cenario_ma) (indice cenario_ma) ''M''
            = Some (No 0 0 (Some (No 1 1 None None)) None)"
    by (simp add: cenario_ma_state avaliar)
  have c: "contar_nos (indice cenario_ma) = 2" by (simp add: cenario_ma_state avaliar)
  from remover_registro_leaves_blank_node[OF h1 h2 h3 h4] h1 h2 h4 c show ?thesis by simp
qed

text \<open>
  Why the amended statement excludes earlier deletions with the empty key: they do remove
  blanked nodes and promote successors, and can leave the same record in two nodes. After
  the run \<open>cenario_15\<close> the key A is found at the root (object 5); deleting A blanks object 5
  in both of its nodes, and the removal then reaches the node of another live record with
  key A (object 6, slot 6) and takes that one out: the index loses a node, and slot 6 is
  not tombstoned.
\<close>

lemma cenario_15_state:
  "indice (executar cenario_15 estado_inicial)
     = Some (No 5 5 (Some (No 2 2 None None))
                    (Some (No 4 4 (Some (No 5 5 None None)) (Some (No 6 6 None None)))))
   \<and> chaves (objetos (executar cenario_15 estado_inicial)) [0, 1, 2, 3, 4, 5, 6, 7]
     = [[], [], ''A'', [], [], ''A'', ''A'', ''A'']"
  by (simp add: cenario_15_def executar_def avaliar)

lemma cenario_15_remover_a:
  "abb_buscar (objetos (executar cenario_15 estado_inicial))
              (indice (executar cenario_15 estado_inicial)) ''A'' \<noteq> None
   \<and> indice (remover_registro_por_cpf (executar cenario_15 estado_inicial) ''A'')
       = Some (No 5 5 (Some (No 2 2 None None)) (Some (No 4 4 (Some (No 5 5 None None)) None)))
   \<and> registro_na_posicao (remover_registro_por_cpf (executar cenario_15 estado_inicial) ''A'') 6
       = Some (Registro_init ''A'' ''a'' data0 False)"
  by (simp add: cenario_15_def executar_def avaliar)

end
